theory Spec2Isabelle
  imports Complex_Main "HOL-Library.Multiset"
begin

section \<open>Data model of \<open>scripts/fit_bexar_mask.py\<close>\<close>

text \<open>
  The script aligns a per-day frame of mobility and case data (\<open>load_data\<close>), fits one
  SIRNet model per reporting rate (\<open>model_and_fit\<close>, inside \<open>pipeline\<close>) and projects
  each fitted model forward under constant-mobility scenarios (\<open>forecast\<close>).

  Conventions of the embedding:
  \<^item> NumPy/Torch floating-point numbers are abstracted to \<open>real\<close>; \<open>astype(np.float32)\<close>
    and \<open>torch.from_numpy\<close> are therefore the identity. Division is HOL's division; for a
    zero divisor NumPy yields \<open>inf\<close>/\<open>nan\<close>, which has no counterpart in \<open>real\<close>, hence
    statements about a quotient's value are only made for a non-zero divisor.
  \<^item> A two-dimensional array is a list of rows, each row a list of column values.
    The batch axis of size one added by \<open>reshape\<close> is not represented.
  \<^item> Every exception the script itself can raise is a value \<open>Inl e\<close> of the result.
\<close>

datatype error = KeyError | IndexError | ValueError | RuntimeError

text \<open>
  Modelled from the spec: the frame returned by \<open>retrieve_data.get_data\<close> (module not
  among the sources). One row per calendar day with an ISO date string, the six mobility
  categories named in \<open>MOBILITY_KEYS\<close>, a case count and the population; rows are
  addressed by position \<open>0, 1, ...\<close> (default integer index).
\<close>

record raw_record =
  date :: string
  retail_recreation :: real
  grocery_pharmacy :: real
  parks :: real
  transit_stations :: real
  workplace :: real
  residential :: real
  Cases :: int
  Population :: int

text \<open>The command-line configuration object \<open>params\<close> (the \<open>argparse\<close> namespace).\<close>

record params =
  weights_dir :: "string option"
  country :: string
  state :: string
  county :: string
  forecast_days :: int
  reporting_rates :: "real list"
  mobility_cases :: "real list"
  n_epochs :: int
  lr_step_size :: int
  delay_days :: int
  start_model :: int
  incubation_days :: int
  estimated_r0 :: real
  mask_modifier :: bool
  mask_day :: int

section \<open>Python slicing\<close>

text \<open>
  Position denoted by a slice bound \<open>k\<close> on a sequence of length \<open>n\<close>: a negative bound
  counts from the end, and every bound is clipped to \<open>0..n\<close>.
\<close>

definition slice_pos :: "int \<Rightarrow> nat \<Rightarrow> nat" where
  "slice_pos k n = (if k < 0 then nat (max 0 (int n + k)) else min (nat k) n)"

text \<open>\<open>xs[k:]\<close> and \<open>xs[:k]\<close>.\<close>

definition slice_from :: "int \<Rightarrow> 'a list \<Rightarrow> 'a list" where
  "slice_from k xs = drop (slice_pos k (length xs)) xs"

definition slice_to :: "int \<Rightarrow> 'a list \<Rightarrow> 'a list" where
  "slice_to k xs = take (slice_pos k (length xs)) xs"

text \<open>\<open>a[k:, c] = v\<close> on a two-dimensional array \<open>a\<close>.\<close>

definition assign_col_from :: "int \<Rightarrow> nat \<Rightarrow> 'a \<Rightarrow> 'a list list \<Rightarrow> 'a list list" where
  "assign_col_from k c v a =
     take (slice_pos k (length a)) a @
     map (\<lambda>row. row[c := v]) (drop (slice_pos k (length a)) a)"

section \<open>\<open>load_data\<close>\<close>

text \<open>\<open>df[MOBILITY_KEYS]\<close>: the six mobility columns of one row, in the order of the key list.\<close>

definition mobility_row :: "raw_record \<Rightarrow> real list" where
  "mobility_row r =
     [retail_recreation r, grocery_pharmacy r, parks r,
      transit_stations r, workplace r, residential r]"

text \<open>\<open>mobility[-1][-1] = 17.0\<close> on a non-empty array: last row, last column.\<close>

definition override_last :: "real list list \<Rightarrow> real list list" where
  "override_last a =
     a[length a - 1 := (a ! (length a - 1))[length (a ! (length a - 1)) - 1 := 17]]"

text \<open>
  The formatting steps after the override (lines 71 to 82): percentages to fractions
  of activity on columns \<open>:6\<close>, the mandate column rebuilt, the first \<open>start_model\<close> rows
  dropped.
\<close>

definition to_fractions :: "real list list \<Rightarrow> real list list" where
  "to_fractions a = map (\<lambda>row. map (\<lambda>v. 1 + v / 100) (take 6 row) @ drop 6 row) a"

definition mandate_column :: "params \<Rightarrow> real list list \<Rightarrow> real list list" where
  "mandate_column p a =
     (let z = map (\<lambda>row. row[5 := 0]) a
      in if mask_modifier p then assign_col_from (mask_day p) 5 1 z else z)"

text \<open>
  \<open>load_data params\<close>, with the frame \<open>df\<close> that \<open>retrieve_data.get_data\<close> returned for the
  region. Result: \<open>(mobility, cases, day0, population, prev_cases)\<close>.
  \<open>df['Population'][0]\<close>, \<open>df['date'][total_delay]\<close> and \<open>cases[...]\<close> look a row label up
  and raise \<open>KeyError\<close> outside \<open>0..len-1\<close>; \<open>mobility[-1]\<close> raises \<open>IndexError\<close> on an
  array without rows.
\<close>

definition load_data ::
  "params \<Rightarrow> raw_record list \<Rightarrow>
   error + (real list list \<times> int list \<times> string \<times> int \<times> int)" where
  "load_data p df =
     (if df = [] then Inl KeyError
      else
        let mobility = map mobility_row df;
            cases = map Cases df;
            population = Population (df ! 0);
            total_delay = delay_days p + start_model p
        in if total_delay < 0 \<or> int (length df) \<le> total_delay then Inl KeyError
           else
             let day0 = date (df ! nat total_delay);
                 prev_cases = cases ! nat (total_delay - (if total_delay > 0 then 1 else 0));
                 cases = slice_from (delay_days p) cases;
                 mobility = slice_to (- delay_days p) mobility
             in if mobility = [] then Inl IndexError
                else
                  let mobility = override_last mobility;
                      mobility = to_fractions mobility;
                      mobility = mandate_column p mobility;
                      mobility = slice_from (start_model p) mobility;
                      cases = slice_from (start_model p) cases
                  in Inr (mobility, cases, day0, population, prev_cases))"

text \<open>
  The same function with the statement \<open>mobility[-1][-1] = 17.0\<close> (line 70) removed and
  every other line kept; the comparison partner for the question whether that override
  is observable.
\<close>

definition load_data_without_override ::
  "params \<Rightarrow> raw_record list \<Rightarrow>
   error + (real list list \<times> int list \<times> string \<times> int \<times> int)" where
  "load_data_without_override p df =
     (if df = [] then Inl KeyError
      else
        let mobility = map mobility_row df;
            cases = map Cases df;
            population = Population (df ! 0);
            total_delay = delay_days p + start_model p
        in if total_delay < 0 \<or> int (length df) \<le> total_delay then Inl KeyError
           else
             let day0 = date (df ! nat total_delay);
                 prev_cases = cases ! nat (total_delay - (if total_delay > 0 then 1 else 0));
                 cases = slice_from (delay_days p) cases;
                 mobility = slice_to (- delay_days p) mobility;
                 mobility = to_fractions mobility;
                 mobility = mandate_column p mobility;
                 mobility = slice_from (start_model p) mobility;
                 cases = slice_from (start_model p) cases
             in Inr (mobility, cases, day0, population, prev_cases))"

section \<open>The simulator\<close>

text \<open>
  Modelled from the spec: the package \<open>SIRNet\<close> (\<open>trainer\<close>, \<open>util\<close>) is not among the
  sources. By its contract a trainer bound to a weights file builds a model from
  \<open>(e0, i0)\<close>, \<open>train\<close> fits that model against \<open>(X, Y)\<close> for a number of iterations
  with a learning-rate step size, and a fitted model maps a mobility trajectory to
  per-day compartment values of which column 0 is the infectious and column 1 the
  removed fraction. The three operations are taken as deterministic total functions
  over an abstract type \<open>'m\<close> of model handles.
\<close>

text \<open>
  The weights file
  \<open>pjoin(weights_dir_base, '{}_report{}_weights.pt'.format(county_name, reporting_rate))\<close>,
  kept as its three varying components instead of the rendered string.
\<close>

datatype weights_path = WeightsPath string string real

record sir_row =
  infectious :: real
  removed :: real

record 'm simulator =
  build_model :: "weights_path \<Rightarrow> real \<Rightarrow> real \<Rightarrow> 'm"
  train :: "weights_path \<Rightarrow> 'm \<Rightarrow> real list list \<Rightarrow> real list \<Rightarrow> int \<Rightarrow> int \<Rightarrow> 'm"
  forward :: "'m \<Rightarrow> real list list \<Rightarrow> sir_row list"

text \<open>The calls made to the trainer, in the order in which they happen.\<close>

datatype trainer_call =
  BuildModel weights_path real real
| Train weights_path "real list list" "real list" int int

section \<open>\<open>model_and_fit\<close>\<close>

text \<open>Lines 103 and 104: the initial conditions \<open>(e0, i0)\<close>.\<close>

definition initial_conditions :: "params \<Rightarrow> int \<Rightarrow> real \<Rightarrow> real \<times> real" where
  "initial_conditions p prev_cases scale_factor =
     (let i0 = real_of_int prev_cases / scale_factor;
          e0 = estimated_r0 p * i0 / real_of_int (incubation_days p)
      in (e0, i0))"

definition model_and_fit ::
  "'m simulator \<Rightarrow> weights_path \<Rightarrow> real list list \<Rightarrow> real list \<Rightarrow> real \<Rightarrow> int \<Rightarrow> params
   \<Rightarrow> trainer_call list \<times> 'm" where
  "model_and_fit sim weights_name X Y scale_factor prev_cases p =
     (let (e0, i0) = initial_conditions p prev_cases scale_factor;
          model = build_model sim weights_name e0 i0;
          model = train sim weights_name model X Y (n_epochs p) (lr_step_size p)
      in ([BuildModel weights_name e0 i0,
           Train weights_name X Y (n_epochs p) (lr_step_size p)], model))"

section \<open>\<open>forecast\<close>\<close>

text \<open>
  Lines 133 to 138: the trajectory handed to the fitted model for one mobility case,
  for a number of forecast days that is not negative (\<open>expand\<close> raises otherwise, see
  \<open>forecast_case\<close>). \<open>torch.cat\<close> allocates a new tensor, so the assignment to the mandate
  column does not reach \<open>X\<close>.
\<close>

definition trajectory :: "params \<Rightarrow> real list list \<Rightarrow> real \<Rightarrow> real list list" where
  "trajectory p X c =
     (let xN = map (\<lambda>one. one * c / 100) (replicate 6 1);
          xN = xN[5 := 0];
          rX = replicate (nat (forecast_days p)) xN;
          rX = X @ rX
      in if mask_modifier p then assign_col_from (mask_day p) 5 1 rX else rX)"

text \<open>\<open>np.max\<close> and \<open>np.argmax\<close> (first position of the maximum) on a non-empty array.\<close>

definition np_max :: "real list \<Rightarrow> real" where
  "np_max xs = fold max (tl xs) (hd xs)"

fun first_index :: "real \<Rightarrow> real list \<Rightarrow> nat" where
  "first_index v [] = 0"
| "first_index v (x # xs) = (if x = v then 0 else Suc (first_index v xs))"

definition np_argmax :: "real list \<Rightarrow> nat" where
  "np_argmax xs = first_index (np_max xs) xs"

text \<open>
  Lines 141 and 142: the rescaled series \<open>s[:, 0] * scale_factor\<close> and
  \<open>(s[:, 0] + s[:, 1]) * scale_factor\<close> of a simulated state \<open>s\<close>.
\<close>

definition active_series :: "sir_row list \<Rightarrow> real \<Rightarrow> real list" where
  "active_series s scale_factor = map (\<lambda>r. infectious r * scale_factor) s"

definition total_series :: "sir_row list \<Rightarrow> real \<Rightarrow> real list" where
  "total_series s scale_factor = map (\<lambda>r. (infectious r + removed r) * scale_factor) s"

text \<open>
  The body of the loop over \<open>params.mobility_cases\<close>: the two series stored under the
  case and the line printed, \<open>(case, max value, day index, dates[idx])\<close>.
  \<open>expand\<close> raises \<open>RuntimeError\<close> for a negative number of days, \<open>np.max\<close> raises
  \<open>ValueError\<close> on an empty array and \<open>dates[idx]\<close> raises \<open>IndexError\<close> past the end.
\<close>

definition forecast_case ::
  "'m simulator \<Rightarrow> real list list \<Rightarrow> 'm \<Rightarrow> 'd list \<Rightarrow> real \<Rightarrow> params \<Rightarrow> real
   \<Rightarrow> error + (real list \<times> real list \<times> (real \<times> real \<times> nat \<times> 'd))" where
  "forecast_case sim X model dates scale_factor p c =
     (if forecast_days p < 0 then Inl RuntimeError
      else
        let s = forward sim model (trajectory p X c);
            active = active_series s scale_factor;
            tot = total_series s scale_factor
        in if active = [] then Inl ValueError
           else
             let M = np_max active;
                 idx = np_argmax active
             in if length dates \<le> idx then Inl IndexError
                else Inr (active, tot, (c, M, idx, dates ! idx)))"

fun forecast_loop ::
  "'m simulator \<Rightarrow> real list list \<Rightarrow> 'm \<Rightarrow> 'd list \<Rightarrow> real \<Rightarrow> params \<Rightarrow> real list
   \<Rightarrow> (real \<rightharpoonup> real list) \<times> (real \<rightharpoonup> real list) \<times> (real \<times> real \<times> nat \<times> 'd) list
   \<Rightarrow> error +
       ((real \<rightharpoonup> real list) \<times> (real \<rightharpoonup> real list) \<times> (real \<times> real \<times> nat \<times> 'd) list)" where
  "forecast_loop sim X model dates scale_factor p [] acc = Inr acc"
| "forecast_loop sim X model dates scale_factor p (c # cs) (active, tot, printed) =
     (case forecast_case sim X model dates scale_factor p c of
        Inl e \<Rightarrow> Inl e
      | Inr (a, t, line) \<Rightarrow>
          forecast_loop sim X model dates scale_factor p cs
            (active(c \<mapsto> a), tot(c \<mapsto> t), printed @ [line]))"

text \<open>
  \<open>forecast(X, model, dates, scale_factor, params)\<close>: the dictionaries \<open>active\<close> and
  \<open>total\<close>, and the peak lines printed on the way.
\<close>

definition forecast ::
  "'m simulator \<Rightarrow> real list list \<Rightarrow> 'm \<Rightarrow> 'd list \<Rightarrow> real \<Rightarrow> params
   \<Rightarrow> error +
       ((real \<rightharpoonup> real list) \<times> (real \<rightharpoonup> real list) \<times> (real \<times> real \<times> nat \<times> 'd) list)" where
  "forecast sim X model dates scale_factor p =
     forecast_loop sim X model dates scale_factor p (mobility_cases p)
       (Map.empty, Map.empty, [])"

section \<open>\<open>pipeline\<close>\<close>

text \<open>\<open>str.lower\<close> on ASCII letters, and \<open>str.endswith\<close>.\<close>

definition lower_char :: "char \<Rightarrow> char" where
  "lower_char ch =
     (let n = (of_char ch :: nat) in if 65 \<le> n \<and> n \<le> 90 then char_of (n + 32) else ch)"

definition endswith :: "string \<Rightarrow> string \<Rightarrow> bool" where
  "endswith s suf = (length suf \<le> length s \<and> drop (length s - length suf) s = suf)"

definition county_name :: "params \<Rightarrow> string" where
  "county_name p =
     (if endswith (map lower_char (county p)) '' county''
      then slice_to (- int (length '' county'')) (county p)
      else county p)"

text \<open>
  \<open>params.weights_dir if params.weights_dir else timestamp\<close>: \<open>None\<close> and the empty string
  both select the time stamp of the run.
\<close>

definition weights_dir_base :: "string \<Rightarrow> params \<Rightarrow> string" where
  "weights_dir_base timestamp p =
     (case weights_dir p of
        None \<Rightarrow> timestamp
      | Some d \<Rightarrow> if d = [] then timestamp else d)"

definition scale_factor_of :: "int \<Rightarrow> real \<Rightarrow> real" where
  "scale_factor_of population reporting_rate = real_of_int population * reporting_rate"

text \<open>
  The loop over \<open>params.reporting_rates\<close> (lines 268 to 300), with the dictionaries
  \<open>actives\<close> and \<open>totals\<close> as accumulators. An exception leaves the loop with the trainer
  calls made so far.
\<close>

fun rate_loop ::
  "'m simulator \<Rightarrow> string \<Rightarrow> string \<Rightarrow> real list list \<Rightarrow> int list \<Rightarrow> 'd list \<Rightarrow> int \<Rightarrow> int
   \<Rightarrow> params \<Rightarrow> real list
   \<Rightarrow> (real \<rightharpoonup> (real \<rightharpoonup> real list)) \<times> (real \<rightharpoonup> (real \<rightharpoonup> real list))
   \<Rightarrow> trainer_call list \<times>
       (error + ((real \<rightharpoonup> (real \<rightharpoonup> real list)) \<times> (real \<rightharpoonup> (real \<rightharpoonup> real list))))" where
  "rate_loop sim base cname mobility cases dates population prev_cases p [] acc =
     ([], Inr acc)"
| "rate_loop sim base cname mobility cases dates population prev_cases p
     (reporting_rate # rest) (actives, totals) =
     (let X = mobility;
          scale_factor = scale_factor_of population reporting_rate;
          Y = map (\<lambda>y. real_of_int y / scale_factor) cases;
          weights_name = WeightsPath base cname reporting_rate;
          (calls, model) = model_and_fit sim weights_name X Y scale_factor prev_cases p
      in case forecast sim X model dates scale_factor p of
           Inl e \<Rightarrow> (calls, Inl e)
         | Inr (active, tot, printed) \<Rightarrow>
             (let (calls', res) =
                    rate_loop sim base cname mobility cases dates population prev_cases p rest
                      (actives(reporting_rate \<mapsto> active), totals(reporting_rate \<mapsto> tot))
              in (calls @ calls', res)))"

text \<open>
  \<open>pipeline(params)\<close> up to the call of \<open>plot\<close>: the trainer calls made and either the
  exception raised or the dictionaries \<open>actives\<close> and \<open>totals\<close>. The date axis
  \<open>date0 + timedelta(days=d)\<close> is kept symbolic as the pair \<open>(day0, d)\<close>; the date strings
  are taken to be well-formed ISO dates, so that parsing \<open>day0\<close> does not fail. Creating
  the weights directory and rendering the charts are not represented.
\<close>

definition pipeline ::
  "'m simulator \<Rightarrow> string \<Rightarrow> params \<Rightarrow> raw_record list
   \<Rightarrow> trainer_call list \<times>
       (error + ((real \<rightharpoonup> (real \<rightharpoonup> real list)) \<times> (real \<rightharpoonup> (real \<rightharpoonup> real list))))" where
  "pipeline sim timestamp p df =
     (case load_data p df of
        Inl e \<Rightarrow> ([], Inl e)
      | Inr (mobility, cases, day0, population, prev_cases) \<Rightarrow>
          (let days = [0 ..< nat (int (length mobility) + forecast_days p)];
               dates = map (\<lambda>d. (day0, d)) days
           in rate_loop sim (weights_dir_base timestamp p) (county_name p) mobility cases
                dates population prev_cases p (reporting_rates p) (Map.empty, Map.empty)))"

section \<open>Auxiliary notions and sample inputs\<close>

text \<open>Every row of a mobility array has the six columns of \<open>MOBILITY_KEYS\<close>.\<close>

definition six_wide :: "real list list \<Rightarrow> bool" where
  "six_wide a = (\<forall>row \<in> set a. length row = 6)"

text \<open>A frame of five days, a configuration and a simulator to run the definitions on.\<close>

definition sample_day :: "string \<Rightarrow> int \<Rightarrow> raw_record" where
  "sample_day d n =
     \<lparr>date = d, retail_recreation = - 10 * real_of_int n, grocery_pharmacy = 5, parks = 20,
      transit_stations = - 30, workplace = - 40, residential = 12,
      Cases = 10 * n + 3, Population = 1000\<rparr>"

definition sample_frame :: "raw_record list" where
  "sample_frame =
     [sample_day ''2020-03-01'' 1, sample_day ''2020-03-02'' 2, sample_day ''2020-03-03'' 3,
      sample_day ''2020-03-04'' 4, sample_day ''2020-03-05'' 5]"

definition sample_params :: params where
  "sample_params =
     \<lparr>weights_dir = None, country = ''United States'', state = ''Texas'',
      county = ''Bexar County'', forecast_days = 2, reporting_rates = [1 / 10],
      mobility_cases = [50, 100], n_epochs = 200, lr_step_size = 4000, delay_days = 1,
      start_model = 2, incubation_days = 5, estimated_r0 = 22 / 10, mask_modifier = True,
      mask_day = 3\<rparr>"

definition sample_sim :: "unit simulator" where
  "sample_sim =
     \<lparr>build_model = (\<lambda>w e0 i0. ()),
      train = (\<lambda>w m X Y iters step_size. ()),
      forward =
        (\<lambda>m rX. map (\<lambda>row. \<lparr>infectious = row ! 0 + row ! 5 / 2, removed = row ! 5\<rparr>) rX)\<rparr>"

text \<open>
  What one pass of the loop over the reporting rates hands to the trainer for the rate
  \<open>r\<close>, and the fitted model it gets back.
\<close>

definition fit_calls ::
  "string \<Rightarrow> string \<Rightarrow> real list list \<Rightarrow> int list \<Rightarrow> int \<Rightarrow> int \<Rightarrow> params \<Rightarrow> real
   \<Rightarrow> trainer_call list" where
  "fit_calls base cname mobility cases population prev_cases p r =
     [BuildModel (WeightsPath base cname r)
        (estimated_r0 p * (real_of_int prev_cases / (real_of_int population * r))
           / real_of_int (incubation_days p))
        (real_of_int prev_cases / (real_of_int population * r)),
      Train (WeightsPath base cname r) mobility
        (map (\<lambda>y. real_of_int y / (real_of_int population * r)) cases)
        (n_epochs p) (lr_step_size p)]"

definition fitted ::
  "'m simulator \<Rightarrow> string \<Rightarrow> string \<Rightarrow> real list list \<Rightarrow> int list \<Rightarrow> int \<Rightarrow> int \<Rightarrow> params
   \<Rightarrow> real \<Rightarrow> 'm" where
  "fitted sim base cname mobility cases population prev_cases p r =
     snd (model_and_fit sim (WeightsPath base cname r) mobility
            (map (\<lambda>y. real_of_int y / scale_factor_of population r) cases)
            (scale_factor_of population r) prev_cases p)"

section \<open>Slicing and array shapes\<close>

lemma slice_pos_le: "slice_pos k n \<le> n"
  by (auto simp add: slice_pos_def max_def)

lemma slice_pos_nonneg: "0 \<le> k \<Longrightarrow> slice_pos k n = min (nat k) n"
  by (simp add: slice_pos_def)

lemma slice_pos_minus: "0 < d \<Longrightarrow> slice_pos (- d) n = n - nat d"
  by (auto simp add: slice_pos_def)

lemma slice_to_zero: "slice_to 0 xs = []"
  by (simp add: slice_to_def slice_pos_def)

lemma length_slice_from: "length (slice_from k xs) = length xs - slice_pos k (length xs)"
  by (simp add: slice_from_def)

lemma length_slice_to: "length (slice_to k xs) = slice_pos k (length xs)"
  by (simp add: slice_to_def slice_pos_le)

lemma length_override_last: "length (override_last a) = length a"
  by (simp add: override_last_def)

lemma length_to_fractions: "length (to_fractions a) = length a"
  by (simp add: to_fractions_def)

lemma length_assign_col_from: "length (assign_col_from k c v a) = length a"
  by (simp add: assign_col_from_def slice_pos_le)

lemma length_mandate_column: "length (mandate_column p a) = length a"
  by (simp add: mandate_column_def Let_def length_assign_col_from)

lemma six_wide_frame: "six_wide (map mobility_row df)"
  by (simp add: six_wide_def mobility_row_def)

lemma six_wide_nth: "six_wide a \<Longrightarrow> i < length a \<Longrightarrow> length (a ! i) = 6"
  by (simp add: six_wide_def)

lemma six_wide_slice_to: "six_wide a \<Longrightarrow> six_wide (slice_to k a)"
  by (auto simp add: slice_to_def six_wide_def dest: in_set_takeD)

lemma six_wide_slice_from: "six_wide a \<Longrightarrow> six_wide (slice_from k a)"
  by (auto simp add: slice_from_def six_wide_def dest: in_set_dropD)

lemma six_wide_to_fractions: "six_wide a \<Longrightarrow> six_wide (to_fractions a)"
  by (auto simp add: six_wide_def to_fractions_def)

lemma override_last_nth:
  "i < length a \<Longrightarrow> six_wide a \<Longrightarrow>
   override_last a ! i = (if i = length a - 1 then (a ! i)[5 := 17] else a ! i)"
  by (auto simp add: override_last_def six_wide_nth nth_list_update)

lemma six_wide_override_last:
  assumes "six_wide a"
  shows "six_wide (override_last a)"
proof -
  have "\<forall>i < length (override_last a). length (override_last a ! i) = 6"
    using assms by (auto simp add: length_override_last override_last_nth six_wide_nth)
  then show ?thesis
    unfolding six_wide_def by (metis in_set_conv_nth)
qed

lemma mandate_column_nth:
  assumes "j < length a" and "length (a ! j) = 6"
  shows "length (mandate_column p a ! j) = 6"
    and "mandate_column p a ! j ! 5 =
           (if mask_modifier p \<and> slice_pos (mask_day p) (length a) \<le> j then 1 else 0)"
  using assms
  by (auto simp add: mandate_column_def Let_def assign_col_from_def nth_append slice_pos_le
      min_def)

section \<open>What \<open>load_data\<close> returns\<close>

lemma load_data_Inr_iff:
  "load_data p df = Inr res \<longleftrightarrow>
     df \<noteq> [] \<and> 0 \<le> delay_days p + start_model p \<and>
     delay_days p + start_model p < int (length df) \<and>
     slice_to (- delay_days p) (map mobility_row df) \<noteq> [] \<and>
     res = (slice_from (start_model p)
              (mandate_column p (to_fractions (override_last
                 (slice_to (- delay_days p) (map mobility_row df))))),
            slice_from (start_model p) (slice_from (delay_days p) (map Cases df)),
            date (df ! nat (delay_days p + start_model p)),
            Population (df ! 0),
            map Cases df ! nat (delay_days p + start_model p
                - (if delay_days p + start_model p > 0 then 1 else 0)))"
  by (auto simp add: load_data_def Let_def)

text \<open>
  With \<open>delay_days = 0\<close> the slice \<open>mobility[:-0]\<close> is \<open>mobility[:0]\<close>: no row is left, and
  the override on the last row raises.
\<close>

lemma load_data_zero_delay:
  assumes "delay_days p = 0" and "0 \<le> start_model p" and "start_model p < int (length df)"
  shows "load_data p df = Inl IndexError"
  using assms by (auto simp add: load_data_def Let_def slice_to_zero)

text \<open>For a positive delay the function returns, and both series have the expected length.\<close>

lemma load_data_returns:
  assumes "0 < delay_days p" and "0 \<le> start_model p"
      and "delay_days p + start_model p < int (length df)"
  shows "\<exists>res. load_data p df = Inr res"
proof -
  have "slice_to (- delay_days p) (map mobility_row df) \<noteq> []"
    using assms by (auto simp add: slice_to_def slice_pos_minus)
  moreover have "df \<noteq> []"
    using assms by auto
  ultimately show ?thesis
    using assms by (simp add: load_data_Inr_iff)
qed

lemma load_data_lengths:
  assumes "load_data p df = Inr (mobility, cases, day0, population, prev_cases)"
      and "0 < delay_days p" and "0 \<le> start_model p"
  shows "length mobility = length df - nat (delay_days p) - nat (start_model p)"
    and "length cases = length df - nat (delay_days p) - nat (start_model p)"
  using assms
  by (auto simp add: load_data_Inr_iff length_slice_from length_slice_to length_mandate_column
      length_to_fractions length_override_last slice_pos_nonneg slice_pos_minus)

lemma load_data_sample:
  "load_data sample_params sample_frame =
     Inr ([[7 / 10, 21 / 20, 6 / 5, 7 / 10, 3 / 5, 0], [3 / 5, 21 / 20, 6 / 5, 7 / 10, 3 / 5, 1]],
          [43, 53], ''2020-03-04'', 1000, 33)"
  by (simp add: load_data_def sample_params_def sample_frame_def sample_day_def Let_def
      slice_from_def slice_to_def slice_pos_def override_last_def to_fractions_def
      mandate_column_def assign_col_from_def mobility_row_def)

lemma load_data_mobility_nth:
  assumes ld: "load_data p df = Inr (mobility, cases, day0, population, prev_cases)"
      and s: "0 \<le> start_model p"
      and i: "i < length mobility"
  shows "length (mobility ! i) = 6"
    and "mobility ! i ! 5 =
           (if mask_modifier p \<and>
               slice_pos (mask_day p) (length mobility + nat (start_model p)) \<le> i + nat (start_model p)
            then 1 else 0)"
proof -
  define A where "A = slice_to (- delay_days p) (map mobility_row df)"
  define B where "B = to_fractions (override_last A)"
  have m: "mobility = slice_from (start_model p) (mandate_column p B)"
    using ld by (simp add: load_data_Inr_iff A_def B_def)
  have wB: "six_wide B"
    unfolding B_def A_def
    by (intro six_wide_to_fractions six_wide_override_last six_wide_slice_to six_wide_frame)
  have lenm: "length mobility = length B - slice_pos (start_model p) (length B)"
    by (simp add: m length_slice_from length_mandate_column)
  have pos: "slice_pos (start_model p) (length B) = nat (start_model p)"
    using i s lenm by (simp add: slice_pos_nonneg)
  have j: "nat (start_model p) + i < length B"
    using i lenm pos by simp
  have nth: "mobility ! i = mandate_column p B ! (nat (start_model p) + i)"
    using j by (simp add: m slice_from_def length_mandate_column pos)
  have wj: "length (B ! (nat (start_model p) + i)) = 6"
    using wB j by (rule six_wide_nth)
  have lenB: "length B = length mobility + nat (start_model p)"
    using lenm pos j by simp
  show "length (mobility ! i) = 6"
    using mandate_column_nth(1) [OF j wj] nth by simp
  show "mobility ! i ! 5 =
           (if mask_modifier p \<and>
               slice_pos (mask_day p) (length mobility + nat (start_model p)) \<le> i + nat (start_model p)
            then 1 else 0)"
    using mandate_column_nth(2) [OF j wj, of p] nth lenB by (simp add: add.commute)
qed

text \<open>
  C1. Claim: for every valid configuration (\<open>delayDays \<ge> 0\<close>, \<open>startModelOffset \<ge> 0\<close>,
  \<open>rawLength - delayDays - startModelOffset > 0\<close>) the two series returned by \<open>load_data\<close>
  have the length \<open>rawLength - delayDays - startModelOffset\<close>, the case \<open>delayDays = 0\<close>
  included. On the code the configuration \<open>delayDays = 0\<close>, \<open>startModelOffset = 1\<close> over
  five days is valid in that sense, yet \<open>load_data\<close> returns no series at all: it raises
  \<open>IndexError\<close> at line 70, because line 67 has cut the mobility array down to no rows.
\<close>

theorem load_data_zero_delay_raises:
  "0 \<le> delay_days (sample_params\<lparr>delay_days := 0, start_model := 1\<rparr>) \<and>
   0 \<le> start_model (sample_params\<lparr>delay_days := 0, start_model := 1\<rparr>) \<and>
   0 < int (length sample_frame)
       - delay_days (sample_params\<lparr>delay_days := 0, start_model := 1\<rparr>)
       - start_model (sample_params\<lparr>delay_days := 0, start_model := 1\<rparr>) \<and>
   load_data (sample_params\<lparr>delay_days := 0, start_model := 1\<rparr>) sample_frame
     = Inl IndexError"
  by (simp add: load_data_zero_delay sample_frame_def)

text \<open>
  Whenever \<open>load_data\<close> returns, \<open>day0\<close> and \<open>prev_cases\<close> are the ones of lines 59 and 62.
\<close>

lemma load_data_day0_prev_cases:
  assumes "load_data p df = Inr (mobility, cases, day0, population, prev_cases)"
  shows "day0 = date (df ! nat (delay_days p + start_model p))"
    and "0 < delay_days p + start_model p \<Longrightarrow>
           prev_cases = Cases (df ! nat (delay_days p + start_model p - 1))"
    and "delay_days p + start_model p = 0 \<Longrightarrow> prev_cases = Cases (df ! 0)"
  using assms by (auto simp add: load_data_Inr_iff)

text \<open>
  C6. Claim: whenever \<open>totalDelay = delayDays + startModelOffset\<close> is a valid record
  index, \<open>load_data\<close> returns \<open>day0\<close> as the date at index \<open>totalDelay\<close> and \<open>prevCases\<close> as
  the case count at index \<open>totalDelay - 1\<close>, or at index \<open>0\<close> when \<open>totalDelay = 0\<close>.
  On the code \<open>totalDelay = 0\<close> (both settings zero) is a valid index of the five-day
  frame, and \<open>load_data\<close> raises \<open>IndexError\<close> instead of returning the count of day \<open>0\<close>.
\<close>

theorem load_data_total_delay_zero_raises:
  "delay_days (sample_params\<lparr>delay_days := 0, start_model := 0\<rparr>)
     + start_model (sample_params\<lparr>delay_days := 0, start_model := 0\<rparr>) = 0 \<and>
   0 < length sample_frame \<and>
   load_data (sample_params\<lparr>delay_days := 0, start_model := 0\<rparr>) sample_frame
     = Inl IndexError"
  by (simp add: load_data_zero_delay sample_frame_def)

section \<open>The mandate column of the aligned series\<close>

text \<open>
  C3. For every configuration on which \<open>load_data\<close> returns, with a non-negative
  \<open>start_model\<close> and a non-negative \<open>mask_day\<close>: column 5 of the returned mobility series
  is 0 at every index when \<open>mask_modifier\<close> is off; when it is on, the column is 0 before
  the index \<open>mask_day - start_model\<close> clamped to the bounds of the series and 1 from that
  index on. In both cases the column never decreases along the day index.
\<close>

theorem mandate_column_step:
  assumes "load_data p df = Inr (mobility, cases, day0, population, prev_cases)"
      and "0 \<le> start_model p"
      and "0 \<le> mask_day p"
  shows "(\<forall>i < length mobility.
            mobility ! i ! 5 =
              (if mask_modifier p \<and>
                  nat (max 0 (min (mask_day p - start_model p) (int (length mobility)))) \<le> i
               then 1 else 0)) \<and>
         (\<forall>i j. i \<le> j \<and> j < length mobility \<longrightarrow> mobility ! i ! 5 \<le> mobility ! j ! 5)"
proof -
  have v: "mobility ! i ! 5 = (if mask_modifier p \<and> mask_day p - start_model p \<le> int i then 1 else 0)"
    if "i < length mobility" for i
    using load_data_mobility_nth(2) [OF assms(1,2) that] assms(2,3) that
    by (auto simp add: slice_pos_nonneg min_def)
  show ?thesis
  proof (intro conjI allI impI)
    fix i assume "i < length mobility"
    then show "mobility ! i ! 5 =
              (if mask_modifier p \<and>
                  nat (max 0 (min (mask_day p - start_model p) (int (length mobility)))) \<le> i
               then 1 else 0)"
      using v [of i] by (auto simp add: max_def min_def)
  next
    fix i j assume "i \<le> j \<and> j < length mobility"
    then show "mobility ! i ! 5 \<le> mobility ! j ! 5"
      using v [of i] v [of j] by auto
  qed
qed

text \<open>On the sample frame, with \<open>start_model = 2\<close> and \<open>mask_day = 3\<close>, the step is at index 1.\<close>

theorem mandate_column_step_witness:
  "load_data sample_params sample_frame =
     Inr ([[7 / 10, 21 / 20, 6 / 5, 7 / 10, 3 / 5, 0], [3 / 5, 21 / 20, 6 / 5, 7 / 10, 3 / 5, 1]],
          [43, 53], ''2020-03-04'', 1000, 33) \<and>
   0 \<le> start_model sample_params \<and> 0 \<le> mask_day sample_params \<and>
   mask_modifier sample_params \<and>
   nat (max 0 (min (mask_day sample_params - start_model sample_params) 2)) = 1 \<and>
   [[7 / 10, 21 / 20, 6 / 5, 7 / 10, 3 / 5, 0], [3 / 5, 21 / 20, 6 / 5, 7 / 10, 3 / 5, 1]] ! 0 ! 5
     = (0::real) \<and>
   [[7 / 10, 21 / 20, 6 / 5, 7 / 10, 3 / 5, 0], [3 / 5, 21 / 20, 6 / 5, 7 / 10, 3 / 5, 1]] ! 1 ! 5
     = (1::real)"
proof -
  have s: "0 \<le> start_model sample_params" and m: "0 \<le> mask_day sample_params"
    by (simp_all add: sample_params_def)
  have k: "mask_modifier sample_params \<and>
      nat (max 0 (min (mask_day sample_params - start_model sample_params) 2)) = 1"
    by (simp add: sample_params_def)
  from mandate_column_step [OF load_data_sample s m] load_data_sample s m k show ?thesis
    by simp
qed

section \<open>The override of line 70\<close>

lemma zero_col_after_override:
  assumes "six_wide a"
  shows "map (\<lambda>row. row[5 := 0]) (to_fractions (override_last a)) =
         map (\<lambda>row. row[5 := 0]) (to_fractions a)"
proof (rule nth_equalityI)
  show "length (map (\<lambda>row. row[5 := 0]) (to_fractions (override_last a))) =
        length (map (\<lambda>row. row[5 := 0]) (to_fractions a))"
    by (simp add: length_to_fractions length_override_last)
next
  fix i
  assume "i < length (map (\<lambda>row. row[5 := 0]) (to_fractions (override_last a)))"
  then have i: "i < length a"
    by (simp add: length_to_fractions length_override_last)
  have w: "length (a ! i) = 6"
    using assms i by (rule six_wide_nth)
  have r: "(map (\<lambda>v. 1 + v / 100) (take 6 ((a ! i)[5 := 17])) @ drop 6 ((a ! i)[5 := 17]))[5 := 0] =
        (map (\<lambda>v. 1 + v / 100) (take 6 (a ! i)) @ drop 6 (a ! i))[5 := (0::real)]"
    using w by (simp add: map_update)
  show "map (\<lambda>row. row[5 := 0]) (to_fractions (override_last a)) ! i =
        map (\<lambda>row. row[5 := 0]) (to_fractions a) ! i"
  proof (cases "i = length a - 1")
    case True
    then show ?thesis
      using i assms r by (simp add: to_fractions_def length_override_last override_last_nth)
  next
    case False
    then show ?thesis
      using i assms by (simp add: to_fractions_def length_override_last override_last_nth)
  qed
qed

lemma mandate_column_override:
  "six_wide a \<Longrightarrow>
   mandate_column p (to_fractions (override_last a)) = mandate_column p (to_fractions a)"
  by (simp add: mandate_column_def zero_col_after_override)

text \<open>
  C9, as claimed: for every input \<open>load_data\<close> with and without the override of line 70
  produce the same values. This fails where the array has no rows at the override: with
  \<open>delay_days = 0\<close> the function raises at the override, and returns without it.
\<close>

theorem override_counterexample:
  "load_data (sample_params\<lparr>delay_days := 0, start_model := 2\<rparr>) sample_frame
     = Inl IndexError \<and>
   load_data_without_override (sample_params\<lparr>delay_days := 0, start_model := 2\<rparr>) sample_frame
     = Inr ([], [33, 43, 53], ''2020-03-03'', 1000, 23)"
  by (simp add: load_data_zero_delay load_data_without_override_def sample_params_def
      sample_frame_def sample_day_def Let_def
      slice_from_def slice_to_def slice_pos_def to_fractions_def
      mandate_column_def assign_col_from_def mobility_row_def)

text \<open>
  C9, amended. On every input on which the override itself does not raise (the mobility
  array trimmed by \<open>delay_days\<close> has a row), \<open>load_data\<close> with and without the override
  have the same outcome: the same mobility, cases, day0, population and prev_cases when
  they return, and the same exception otherwise.
\<close>

theorem override_unobservable:
  "load_data p df \<noteq> Inl IndexError \<Longrightarrow> load_data_without_override p df = load_data p df"
  by (auto simp add: load_data_def load_data_without_override_def Let_def
      mandate_column_override six_wide_slice_to six_wide_frame split: if_splits)

text \<open>On the sample frame with \<open>delay_days = 1\<close> both functions return the same five values.\<close>

theorem override_unobservable_witness:
  "load_data sample_params sample_frame \<noteq> Inl IndexError \<and>
   load_data_without_override sample_params sample_frame =
     Inr ([[7 / 10, 21 / 20, 6 / 5, 7 / 10, 3 / 5, 0], [3 / 5, 21 / 20, 6 / 5, 7 / 10, 3 / 5, 1]],
          [43, 53], ''2020-03-04'', 1000, 33)"
  using override_unobservable [of sample_params sample_frame] by (simp add: load_data_sample)

section \<open>The mandate column of the forecast trajectory\<close>

lemma trajectory_length:
  "length (trajectory p X c) = length X + nat (forecast_days p)"
  by (simp add: trajectory_def Let_def length_assign_col_from)

lemma trajectory_history_nth:
  assumes "t < length X"
  shows "trajectory p X c ! t =
           (if mask_modifier p \<and> slice_pos (mask_day p) (length X + nat (forecast_days p)) \<le> t
            then (X ! t)[5 := 1] else X ! t)"
  using assms
  by (auto simp add: trajectory_def Let_def assign_col_from_def nth_append slice_pos_le min_def)

lemma assign_col_from_before:
  "i < slice_pos k (length a) \<Longrightarrow> assign_col_from k c v a ! i = a ! i"
  by (simp add: assign_col_from_def nth_append slice_pos_le)

lemma trajectory_overwrite:
  "trajectory p X c =
     (if mask_modifier p
      then assign_col_from (mask_day p) 5 1 (trajectory (p\<lparr>mask_modifier := False\<rparr>) X c)
      else trajectory (p\<lparr>mask_modifier := False\<rparr>) X c)"
  by (simp add: trajectory_def Let_def)

lemma trajectory_before_mask_day:
  assumes "t < length (trajectory p X c)" and "int t < mask_day p"
  shows "trajectory p X c ! t = trajectory (p\<lparr>mask_modifier := False\<rparr>) X c ! t"
proof -
  have "t < slice_pos (mask_day p) (length (trajectory (p\<lparr>mask_modifier := False\<rparr>) X c))"
    using assms by (simp add: trajectory_length slice_pos_nonneg)
  then show ?thesis
    by (subst trajectory_overwrite) (simp add: assign_col_from_before)
qed

text \<open>
  C10. With \<open>mask_modifier\<close> on, \<open>start_model > 0\<close>, a non-negative \<open>mask_day\<close> and a
  non-negative \<open>forecast_days\<close>, for the series \<open>X\<close> that \<open>load_data\<close> returns: the
  trajectory built by \<open>forecast\<close> has mandate
  value 1 at every history index \<open>t\<close> with \<open>mask_day - start_model \<le> t < length X\<close>; the
  overwrite of line 138 leaves every entry before \<open>mask_day\<close> as it was in the concatenated
  array (it resets nothing to 0); and whenever \<open>mask_day > 0\<close> and
  \<open>mask_day - start_model\<close> lies before the end of a non-empty history, some index
  strictly before \<open>mask_day\<close> carries the value 1.
\<close>

theorem trajectory_mandate_carried_over:
  assumes ld: "load_data p df = Inr (X, cases, day0, population, prev_cases)"
      and on: "mask_modifier p"
      and s: "0 < start_model p"
      and m: "0 \<le> mask_day p"
      and f: "0 \<le> forecast_days p"
  shows "(\<forall>t. mask_day p - start_model p \<le> int t \<and> t < length X \<longrightarrow>
              trajectory p X c ! t ! 5 = 1) \<and>
         (\<forall>t. t < length (trajectory p X c) \<and> int t < mask_day p \<longrightarrow>
              trajectory p X c ! t = trajectory (p\<lparr>mask_modifier := False\<rparr>) X c ! t) \<and>
         (0 < mask_day p \<and> mask_day p - start_model p < int (length X) \<and> X \<noteq> [] \<longrightarrow>
            (\<exists>t < length X. int t < mask_day p \<and> trajectory p X c ! t ! 5 = 1))"
proof -
  have s0: "0 \<le> start_model p"
    using s by simp
  have one: "trajectory p X c ! t ! 5 = 1"
    if "mask_day p - start_model p \<le> int t" and "t < length X" for t
  proof -
    have w: "length (X ! t) = 6"
      using load_data_mobility_nth(1) [OF ld s0 that(2)] .
    have "X ! t ! 5 = 1"
      using load_data_mobility_nth(2) [OF ld s0 that(2)] that on m s0
      by (auto simp add: slice_pos_nonneg min_def)
    then show ?thesis
      using w that(2) by (simp add: trajectory_history_nth)
  qed
  have ex: "\<exists>t < length X. int t < mask_day p \<and> trajectory p X c ! t ! 5 = 1"
    if "0 < mask_day p" and "mask_day p - start_model p < int (length X)" and "X \<noteq> []"
  proof -
    define t where "t = nat (max 0 (mask_day p - start_model p))"
    have "t < length X" "int t < mask_day p" "mask_day p - start_model p \<le> int t"
      using that s by (auto simp add: t_def max_def)
    then show ?thesis
      using one [of t] by blast
  qed
  show ?thesis
    using one ex trajectory_before_mask_day by blast
qed

text \<open>On the sample frame the history index 1 lies before \<open>mask_day = 3\<close> and carries the value 1.\<close>

theorem trajectory_mandate_carried_over_witness:
  "load_data sample_params sample_frame =
     Inr ([[7 / 10, 21 / 20, 6 / 5, 7 / 10, 3 / 5, 0], [3 / 5, 21 / 20, 6 / 5, 7 / 10, 3 / 5, 1]],
          [43, 53], ''2020-03-04'', 1000, 33) \<and>
   mask_modifier sample_params \<and> 0 < start_model sample_params \<and>
   0 \<le> mask_day sample_params \<and> 0 \<le> forecast_days sample_params \<and>
   mask_day sample_params - start_model sample_params \<le> int 1 \<and> int 1 < mask_day sample_params \<and>
   trajectory sample_params
     [[7 / 10, 21 / 20, 6 / 5, 7 / 10, 3 / 5, 0], [3 / 5, 21 / 20, 6 / 5, 7 / 10, 3 / 5, 1]] 50
     ! 1 ! 5 = 1"
proof -
  have h: "mask_modifier sample_params" "0 < start_model sample_params"
      "0 \<le> mask_day sample_params" "0 \<le> forecast_days sample_params"
    and k: "mask_day sample_params - start_model sample_params \<le> int 1"
      "int 1 < mask_day sample_params"
    by (simp_all add: sample_params_def)
  from trajectory_mandate_carried_over [OF load_data_sample h, of 50] k
  have "trajectory sample_params
     [[7 / 10, 21 / 20, 6 / 5, 7 / 10, 3 / 5, 0], [3 / 5, 21 / 20, 6 / 5, 7 / 10, 3 / 5, 1]] 50
     ! 1 ! 5 = 1"
    by simp
  with load_data_sample h k show ?thesis
    by simp
qed

section \<open>What \<open>forecast\<close> returns\<close>

lemma np_max_eq_Max: "xs \<noteq> [] \<Longrightarrow> np_max xs = Max (set xs)"
  by (cases xs) (simp_all add: np_max_def Max.set_eq_fold [symmetric])

lemma first_index_unique:
  "k < length xs \<Longrightarrow> xs ! k = v \<Longrightarrow> (\<forall>j < k. xs ! j \<noteq> v) \<Longrightarrow> first_index v xs = k"
proof (induction xs arbitrary: k)
  case Nil
  then show ?case by simp
next
  case (Cons x xs)
  show ?case
  proof (cases k)
    case 0
    with Cons.prems show ?thesis by simp
  next
    case (Suc k')
    have "x \<noteq> v"
      using Cons.prems(3) Suc by force
    moreover have "first_index v xs = k'"
      using Cons.prems Suc by (intro Cons.IH) auto
    ultimately show ?thesis
      using Suc by simp
  qed
qed

lemma unique_peak:
  assumes k: "k < length xs" and u: "\<forall>j < length xs. j \<noteq> k \<longrightarrow> xs ! j < xs ! k"
  shows "np_max xs = xs ! k" and "np_argmax xs = k"
proof -
  have ne: "xs \<noteq> []"
    using k by auto
  have "Max (set xs) = xs ! k"
  proof (rule Max_eqI)
    show "finite (set xs)" by simp
    show "xs ! k \<in> set xs" using k by simp
    fix y assume "y \<in> set xs"
    then obtain j where "j < length xs" "y = xs ! j"
      by (auto simp add: in_set_conv_nth)
    then show "y \<le> xs ! k"
      using u by (cases "j = k") (auto simp add: less_imp_le)
  qed
  then show m: "np_max xs = xs ! k"
    using ne by (simp add: np_max_eq_Max)
  have "xs ! j \<noteq> xs ! k" if "j < k" for j
  proof -
    from that k have "j < length xs" "j \<noteq> k"
      by auto
    with u have "xs ! j < xs ! k"
      by blast
    then show ?thesis
      by simp
  qed
  then show "np_argmax xs = k"
    unfolding np_argmax_def m using k by (intro first_index_unique) auto
qed

text \<open>The outcome of one pass of the loop body.\<close>

lemma forecast_case_Inr_iff:
  "forecast_case sim X model dates sf p c = Inr res \<longleftrightarrow>
     0 \<le> forecast_days p \<and>
     active_series (forward sim model (trajectory p X c)) sf \<noteq> [] \<and>
     np_argmax (active_series (forward sim model (trajectory p X c)) sf) < length dates \<and>
     res = (active_series (forward sim model (trajectory p X c)) sf,
            total_series (forward sim model (trajectory p X c)) sf,
            (c, np_max (active_series (forward sim model (trajectory p X c)) sf),
             np_argmax (active_series (forward sim model (trajectory p X c)) sf),
             dates ! np_argmax (active_series (forward sim model (trajectory p X c)) sf)))"
  by (auto simp add: forecast_case_def Let_def)

lemma forecast_loop_Inr:
  assumes "forecast_loop sim X model dates sf p cs (active, tot, printed) = Inr (active', tot', printed')"
  shows "(\<forall>c \<in> set cs. \<exists>res. forecast_case sim X model dates sf p c = Inr res) \<and>
         active' = (\<lambda>c. if c \<in> set cs
                     then Some (active_series (forward sim model (trajectory p X c)) sf)
                     else active c) \<and>
         tot' = (\<lambda>c. if c \<in> set cs
                     then Some (total_series (forward sim model (trajectory p X c)) sf)
                     else tot c) \<and>
         printed' = printed @
            map (\<lambda>c. (c, np_max (active_series (forward sim model (trajectory p X c)) sf),
                      np_argmax (active_series (forward sim model (trajectory p X c)) sf),
                      dates ! np_argmax (active_series (forward sim model (trajectory p X c)) sf)))
              cs"
  using assms
proof (induction cs arbitrary: active tot printed)
  case Nil
  then show ?case by simp
next
  case (Cons c cs)
  from Cons.prems obtain a t line where
    fc: "forecast_case sim X model dates sf p c = Inr (a, t, line)" and
    rest: "forecast_loop sim X model dates sf p cs
             (active(c \<mapsto> a), tot(c \<mapsto> t), printed @ [line]) = Inr (active', tot', printed')"
    by (auto split: sum.splits)
  note ih = Cons.IH [OF rest]
  have v: "a = active_series (forward sim model (trajectory p X c)) sf"
      "t = total_series (forward sim model (trajectory p X c)) sf"
      "line = (c, np_max (active_series (forward sim model (trajectory p X c)) sf),
                      np_argmax (active_series (forward sim model (trajectory p X c)) sf),
                      dates ! np_argmax (active_series (forward sim model (trajectory p X c)) sf))"
    using fc by (simp_all add: forecast_case_Inr_iff)
  show ?case
    using ih fc v by (auto simp add: fun_eq_iff)
qed

lemma forecast_loop_total:
  assumes "\<forall>c \<in> set cs. \<exists>res. forecast_case sim X model dates sf p c = Inr res"
  shows "\<exists>res. forecast_loop sim X model dates sf p cs (active, tot, printed) = Inr res"
  using assms
proof (induction cs arbitrary: active tot printed)
  case Nil
  then show ?case by simp
next
  case (Cons c cs)
  from Cons.prems obtain a t line where
    fc: "forecast_case sim X model dates sf p c = Inr (a, t, line)"
    by (metis list.set_intros(1) prod_cases3)
  have "\<exists>res. forecast_loop sim X model dates sf p cs
             (active(c \<mapsto> a), tot(c \<mapsto> t), printed @ [line]) = Inr res"
    using Cons.prems by (intro Cons.IH) simp
  then show ?case
    using fc by simp
qed

lemma forecast_Inr:
  assumes "forecast sim X model dates sf p = Inr (active, tot, printed)"
  shows "active = (\<lambda>c. if c \<in> set (mobility_cases p)
                     then Some (active_series (forward sim model (trajectory p X c)) sf)
                     else None)"
    and "tot = (\<lambda>c. if c \<in> set (mobility_cases p)
                     then Some (total_series (forward sim model (trajectory p X c)) sf)
                     else None)"
    and "printed =
            map (\<lambda>c. (c, np_max (active_series (forward sim model (trajectory p X c)) sf),
                      np_argmax (active_series (forward sim model (trajectory p X c)) sf),
                      dates ! np_argmax (active_series (forward sim model (trajectory p X c)) sf)))
              (mobility_cases p)"
  using forecast_loop_Inr [OF assms [unfolded forecast_def]] by simp_all

lemma forecast_sample:
  "forecast sample_sim
     [[7 / 10, 21 / 20, 6 / 5, 7 / 10, 3 / 5, 0], [3 / 5, 21 / 20, 6 / 5, 7 / 10, 3 / 5, 1]] ()
     [d0, d1, d2, d3] (scale_factor_of 1000 (1 / 10)) sample_params =
   Inr ([50 \<mapsto> [70, 110, 50, 100], 100 \<mapsto> [70, 110, 100, 150]],
        [50 \<mapsto> [70, 210, 50, 200], 100 \<mapsto> [70, 210, 100, 250]],
        [(50, 110, 1, d1), (100, 150, 3, d3)])"
  by (simp add: forecast_def forecast_case_def trajectory_def sample_params_def sample_sim_def
      Let_def assign_col_from_def slice_pos_def active_series_def total_series_def
      np_max_def np_argmax_def scale_factor_of_def)

lemma sample_state:
  "forward sample_sim ()
     (trajectory sample_params
        [[7 / 10, 21 / 20, 6 / 5, 7 / 10, 3 / 5, 0], [3 / 5, 21 / 20, 6 / 5, 7 / 10, 3 / 5, 1]] c) =
   [\<lparr>infectious = 7 / 10, removed = 0\<rparr>, \<lparr>infectious = 11 / 10, removed = 1\<rparr>,
    \<lparr>infectious = c / 100, removed = 0\<rparr>, \<lparr>infectious = c / 100 + 1 / 2, removed = 1\<rparr>]"
  by (simp add: trajectory_def sample_params_def sample_sim_def Let_def assign_col_from_def
      slice_pos_def)

text \<open>
  C4. For a positive population and a positive reporting rate, hence a scale factor
  \<open>population * reporting_rate\<close> that is not negative, for every mobility case \<open>c\<close> stored
  by \<open>forecast\<close> and every day index \<open>t\<close>: if the removed fraction of the simulated state
  is non-negative on every day, then \<open>active[c]\<close> and \<open>total[c]\<close> have the same length and
  \<open>total[c][t] \<ge> active[c][t]\<close>.
\<close>

theorem forecast_total_ge_active:
  assumes "forecast sim X model dates (scale_factor_of population reporting_rate) p
             = Inr (active, tot, printed)"
      and "0 < population" and "0 < reporting_rate"
      and "active c = Some a" and "tot c = Some b"
      and "\<forall>r \<in> set (forward sim model (trajectory p X c)). 0 \<le> removed r"
  shows "length a = length b \<and> (\<forall>t < length a. a ! t \<le> b ! t)"
proof -
  define s where "s = forward sim model (trajectory p X c)"
  define sf where "sf = scale_factor_of population reporting_rate"
  have sf: "0 \<le> sf"
    using assms(2,3) by (simp add: sf_def scale_factor_of_def)
  have a: "a = active_series s sf" and b: "b = total_series s sf"
    using forecast_Inr(1,2) [OF assms(1)] assms(4,5)
    by (auto simp add: s_def sf_def split: if_splits)
  have "a ! t \<le> b ! t" if "t < length a" for t
  proof -
    have t: "t < length s"
      using that by (simp add: a active_series_def)
    then have "0 \<le> removed (s ! t)"
      using assms(6) by (simp add: s_def)
    then have "infectious (s ! t) * sf \<le> (infectious (s ! t) + removed (s ! t)) * sf"
      using sf by (simp add: mult_right_mono)
    then show ?thesis
      using t by (simp add: a b active_series_def total_series_def)
  qed
  then show ?thesis
    by (simp add: a b active_series_def total_series_def)
qed

text \<open>The sample simulator on the sample series, with scale factor \<open>1000 * 0.1\<close>.\<close>

theorem forecast_total_ge_active_witness:
  "forecast sample_sim
     [[7 / 10, 21 / 20, 6 / 5, 7 / 10, 3 / 5, 0], [3 / 5, 21 / 20, 6 / 5, 7 / 10, 3 / 5, 1]] ()
     [0::nat, 1, 2, 3] (scale_factor_of 1000 (1 / 10)) sample_params =
   Inr ([50 \<mapsto> [70, 110, 50, 100], 100 \<mapsto> [70, 110, 100, 150]],
        [50 \<mapsto> [70, 210, 50, 200], 100 \<mapsto> [70, 210, 100, 250]],
        [(50, 110, 1, 1), (100, 150, 3, 3)]) \<and>
   (0::int) < 1000 \<and> (0::real) < 1 / 10 \<and>
   length [70, 110, 50, 100 :: real] = length [70, 210, 50, 200 :: real] \<and>
   [70, 110, 50, 100 :: real] ! 1 \<le> [70, 210, 50, 200] ! 1"
proof -
  have nn: "\<forall>r \<in> set (forward sample_sim ()
     (trajectory sample_params
        [[7 / 10, 21 / 20, 6 / 5, 7 / 10, 3 / 5, 0], [3 / 5, 21 / 20, 6 / 5, 7 / 10, 3 / 5, 1]] 50)).
      0 \<le> removed r"
    by (simp add: sample_state)
  have "length [70, 110, 50, 100 :: real] = length [70, 210, 50, 200 :: real] \<and>
     (\<forall>t < length [70, 110, 50, 100 :: real]. [70, 110, 50, 100 :: real] ! t \<le> [70, 210, 50, 200] ! t)"
    by (rule forecast_total_ge_active [OF forecast_sample _ _ _ _ nn]) simp_all
  then show ?thesis
    using forecast_sample by simp
qed

text \<open>
  C8. If for every configured mobility case the active series has a single maximum, at
  the index \<open>k c\<close>, and \<open>k c\<close> is an index of \<open>dates\<close>, then \<open>forecast\<close> returns and the line
  it prints for the case \<open>c\<close> carries exactly the maximum value \<open>active[c][k c]\<close>, the index
  \<open>k c\<close> and the date \<open>dates[k c]\<close>.
\<close>

theorem forecast_reports_peak:
  fixes sim :: "'m simulator" and model :: 'm and p :: params and X :: "real list list"
    and sf :: real and A :: "real \<Rightarrow> real list"
  defines "A \<equiv> \<lambda>c. active_series (forward sim model (trajectory p X c)) sf"
  assumes "0 \<le> forecast_days p"
      and "\<forall>c \<in> set (mobility_cases p).
             k c < length (A c) \<and> (\<forall>j < length (A c). j \<noteq> k c \<longrightarrow> A c ! j < A c ! k c) \<and>
             k c < length dates"
  shows "forecast sim X model dates sf p =
           Inr (\<lambda>c. if c \<in> set (mobility_cases p) then Some (A c) else None,
                \<lambda>c. if c \<in> set (mobility_cases p)
                    then Some (total_series (forward sim model (trajectory p X c)) sf)
                    else None,
                map (\<lambda>c. (c, A c ! k c, k c, dates ! k c)) (mobility_cases p))"
proof -
  have pk: "np_max (A c) = A c ! k c \<and> np_argmax (A c) = k c \<and> A c \<noteq> [] \<and> k c < length dates"
    if "c \<in> set (mobility_cases p)" for c
    using assms(3) that unique_peak [of "k c" "A c"] by fastforce
  have "\<forall>c \<in> set (mobility_cases p). \<exists>res. forecast_case sim X model dates sf p c = Inr res"
    using pk assms(2) by (simp add: forecast_case_Inr_iff A_def)
  then obtain active tot printed where
    f: "forecast sim X model dates sf p = Inr (active, tot, printed)"
    unfolding forecast_def using forecast_loop_total by (metis prod_cases3)
  have "printed = map (\<lambda>c. (c, np_max (A c), np_argmax (A c), dates ! np_argmax (A c)))
              (mobility_cases p)"
    using forecast_Inr(3) [OF f] by (simp add: A_def)
  also have "\<dots> = map (\<lambda>c. (c, A c ! k c, k c, dates ! k c)) (mobility_cases p)"
    using pk by (intro map_cong) auto
  finally have pr: "printed = map (\<lambda>c. (c, A c ! k c, k c, dates ! k c)) (mobility_cases p)" .
  show ?thesis
    unfolding f pr using forecast_Inr(1,2) [OF f] unfolding A_def by simp
qed

text \<open>For the case 50 the sample series peaks at index 1 only, and the line printed says so.\<close>

theorem forecast_reports_peak_witness:
  "0 \<le> forecast_days sample_params \<and>
   forecast sample_sim
     [[7 / 10, 21 / 20, 6 / 5, 7 / 10, 3 / 5, 0], [3 / 5, 21 / 20, 6 / 5, 7 / 10, 3 / 5, 1]] ()
     [''d0'', ''d1'', ''d2'', ''d3''] 100 (sample_params\<lparr>mobility_cases := [50]\<rparr>) =
   Inr ([50 \<mapsto> [70, 110, 50, 100]], [50 \<mapsto> [70, 210, 50, 200]], [(50, 110, 1, ''d1'')])"
proof -
  have s: "forward sample_sim ()
     (trajectory (sample_params\<lparr>mobility_cases := [50]\<rparr>)
        [[7 / 10, 21 / 20, 6 / 5, 7 / 10, 3 / 5, 0], [3 / 5, 21 / 20, 6 / 5, 7 / 10, 3 / 5, 1]] c) =
   [\<lparr>infectious = 7 / 10, removed = 0\<rparr>, \<lparr>infectious = 11 / 10, removed = 1\<rparr>,
    \<lparr>infectious = c / 100, removed = 0\<rparr>, \<lparr>infectious = c / 100 + 1 / 2, removed = 1\<rparr>]" for c
    by (simp add: trajectory_def sample_params_def sample_sim_def Let_def assign_col_from_def
      slice_pos_def)
  have f: "0 \<le> forecast_days (sample_params\<lparr>mobility_cases := [50]\<rparr>)"
    by (simp add: sample_params_def)
  have u: "\<forall>c \<in> set (mobility_cases (sample_params\<lparr>mobility_cases := [50]\<rparr>)).
      (\<lambda>c. 1) c < length (active_series (forward sample_sim ()
         (trajectory (sample_params\<lparr>mobility_cases := [50]\<rparr>)
        [[7 / 10, 21 / 20, 6 / 5, 7 / 10, 3 / 5, 0], [3 / 5, 21 / 20, 6 / 5, 7 / 10, 3 / 5, 1]] c)) 100) \<and>
      (\<forall>j < length (active_series (forward sample_sim ()
         (trajectory (sample_params\<lparr>mobility_cases := [50]\<rparr>)
        [[7 / 10, 21 / 20, 6 / 5, 7 / 10, 3 / 5, 0], [3 / 5, 21 / 20, 6 / 5, 7 / 10, 3 / 5, 1]] c)) 100).
         j \<noteq> (\<lambda>c. 1) c \<longrightarrow>
         active_series (forward sample_sim ()
         (trajectory (sample_params\<lparr>mobility_cases := [50]\<rparr>)
        [[7 / 10, 21 / 20, 6 / 5, 7 / 10, 3 / 5, 0], [3 / 5, 21 / 20, 6 / 5, 7 / 10, 3 / 5, 1]] c)) 100 ! j
         < active_series (forward sample_sim ()
         (trajectory (sample_params\<lparr>mobility_cases := [50]\<rparr>)
        [[7 / 10, 21 / 20, 6 / 5, 7 / 10, 3 / 5, 0], [3 / 5, 21 / 20, 6 / 5, 7 / 10, 3 / 5, 1]] c)) 100
           ! (\<lambda>c. 1) c) \<and>
      (\<lambda>c. 1) c < length [''d0'', ''d1'', ''d2'', ''d3'']"
    by (simp add: s active_series_def less_Suc_eq)
  have "0 \<le> forecast_days sample_params"
    by (simp add: sample_params_def)
  then show ?thesis
    using forecast_reports_peak [OF f u]
    by (simp add: s active_series_def total_series_def fun_eq_iff)
qed

section \<open>The loop over the reporting rates\<close>

lemma model_and_fit_calls:
  "fst (model_and_fit sim (WeightsPath base cname r) mobility
            (map (\<lambda>y. real_of_int y / scale_factor_of population r) cases)
            (scale_factor_of population r) prev_cases p)
   = fit_calls base cname mobility cases population prev_cases p r"
  by (simp add: model_and_fit_def initial_conditions_def scale_factor_of_def fit_calls_def Let_def)

lemma rate_loop_step:
  "rate_loop sim base cname mobility cases dates population prev_cases p (r # rest)
     (actives, totals) =
   (case forecast sim mobility (fitted sim base cname mobility cases population prev_cases p r)
           dates (scale_factor_of population r) p of
      Inl e \<Rightarrow> (fit_calls base cname mobility cases population prev_cases p r, Inl e)
    | Inr (active, tot, printed) \<Rightarrow>
        (fit_calls base cname mobility cases population prev_cases p r @
           fst (rate_loop sim base cname mobility cases dates population prev_cases p rest
                  (actives(r \<mapsto> active), totals(r \<mapsto> tot))),
         snd (rate_loop sim base cname mobility cases dates population prev_cases p rest
                  (actives(r \<mapsto> active), totals(r \<mapsto> tot)))))"
  by (simp add: Let_def fitted_def model_and_fit_calls split_beta split: sum.splits)

lemma rate_loop_Inr:
  assumes "rate_loop sim base cname mobility cases dates population prev_cases p rs
             (actives, totals) = (calls, Inr (actives', totals'))"
  shows "calls = concat (map (fit_calls base cname mobility cases population prev_cases p) rs) \<and>
         (\<forall>r \<in> set rs. \<exists>res.
            forecast sim mobility (fitted sim base cname mobility cases population prev_cases p r)
              dates (scale_factor_of population r) p = Inr res) \<and>
         actives' = (\<lambda>r. if r \<in> set rs
            then Some (\<lambda>c. if c \<in> set (mobility_cases p)
               then Some (active_series
                  (forward sim (fitted sim base cname mobility cases population prev_cases p r)
                     (trajectory p mobility c)) (scale_factor_of population r))
               else None)
            else actives r) \<and>
         totals' = (\<lambda>r. if r \<in> set rs
            then Some (\<lambda>c. if c \<in> set (mobility_cases p)
               then Some (total_series
                  (forward sim (fitted sim base cname mobility cases population prev_cases p r)
                     (trajectory p mobility c)) (scale_factor_of population r))
               else None)
            else totals r)"
  using assms
proof (induction rs arbitrary: actives totals calls)
  case Nil
  then show ?case by simp
next
  case (Cons r rest)
  let ?f = "forecast sim mobility (fitted sim base cname mobility cases population prev_cases p r)
              dates (scale_factor_of population r) p"
  from Cons.prems obtain active tot printed where
    f: "?f = Inr (active, tot, printed)"
    by (auto simp add: rate_loop_step simp del: rate_loop.simps split: sum.splits)
  from Cons.prems f obtain calls' where
    c: "calls = fit_calls base cname mobility cases population prev_cases p r @ calls'" and
    rest: "rate_loop sim base cname mobility cases dates population prev_cases p rest
             (actives(r \<mapsto> active), totals(r \<mapsto> tot)) = (calls', Inr (actives', totals'))"
    by (auto simp add: rate_loop_step prod_eq_iff simp del: rate_loop.simps)
  note ih = Cons.IH [OF rest]
  note v = forecast_Inr(1,2) [OF f]
  show ?case
  proof (intro conjI)
    show "calls =
        concat (map (fit_calls base cname mobility cases population prev_cases p) (r # rest))"
      using ih c by simp
    show "\<forall>r \<in> set (r # rest). \<exists>res.
            forecast sim mobility (fitted sim base cname mobility cases population prev_cases p r)
              dates (scale_factor_of population r) p = Inr res"
      using ih f by simp
    have "actives' = (\<lambda>x. if x \<in> set rest
            then Some (\<lambda>c. if c \<in> set (mobility_cases p)
               then Some (active_series
                  (forward sim (fitted sim base cname mobility cases population prev_cases p x)
                     (trajectory p mobility c)) (scale_factor_of population x))
               else None)
            else (actives(r \<mapsto> active)) x)"
      using ih by blast
    then show "actives' = (\<lambda>x. if x \<in> set (r # rest)
            then Some (\<lambda>c. if c \<in> set (mobility_cases p)
               then Some (active_series
                  (forward sim (fitted sim base cname mobility cases population prev_cases p x)
                     (trajectory p mobility c)) (scale_factor_of population x))
               else None)
            else actives x)"
      by (simp add: v(1) [symmetric] fun_eq_iff)
    have "totals' = (\<lambda>x. if x \<in> set rest
            then Some (\<lambda>c. if c \<in> set (mobility_cases p)
               then Some (total_series
                  (forward sim (fitted sim base cname mobility cases population prev_cases p x)
                     (trajectory p mobility c)) (scale_factor_of population x))
               else None)
            else (totals(r \<mapsto> tot)) x)"
      using ih by blast
    then show "totals' = (\<lambda>x. if x \<in> set (r # rest)
            then Some (\<lambda>c. if c \<in> set (mobility_cases p)
               then Some (total_series
                  (forward sim (fitted sim base cname mobility cases population prev_cases p x)
                     (trajectory p mobility c)) (scale_factor_of population x))
               else None)
            else totals x)"
      by (simp add: v(2) [symmetric] fun_eq_iff)
  qed
qed

lemma rate_loop_total:
  assumes "\<forall>r \<in> set rs. \<exists>res.
            forecast sim mobility (fitted sim base cname mobility cases population prev_cases p r)
              dates (scale_factor_of population r) p = Inr res"
  shows "\<exists>calls res. rate_loop sim base cname mobility cases dates population prev_cases p rs
             (actives, totals) = (calls, Inr res)"
  using assms
proof (induction rs arbitrary: actives totals)
  case Nil
  then show ?case by simp
next
  case (Cons r rest)
  from Cons.prems obtain active tot printed where
    f: "forecast sim mobility (fitted sim base cname mobility cases population prev_cases p r)
              dates (scale_factor_of population r) p = Inr (active, tot, printed)"
    by (metis list.set_intros(1) prod_cases3)
  have "\<exists>calls res. rate_loop sim base cname mobility cases dates population prev_cases p rest
             (actives(r \<mapsto> active), totals(r \<mapsto> tot)) = (calls, Inr res)"
    using Cons.prems by (intro Cons.IH) simp
  then show ?case
    using f by (auto simp add: rate_loop_step prod_eq_iff simp del: rate_loop.simps)
qed

text \<open>Nothing but the loop header reads \<open>params.reporting_rates\<close>.\<close>

lemma mandate_column_rates [simp]:
  "mandate_column (p\<lparr>reporting_rates := x\<rparr>) a = mandate_column p a"
  by (simp add: mandate_column_def Let_def)

lemma load_data_rates [simp]: "load_data (p\<lparr>reporting_rates := x\<rparr>) df = load_data p df"
  by (simp add: load_data_def Let_def)

lemma trajectory_rates [simp]: "trajectory (p\<lparr>reporting_rates := x\<rparr>) X c = trajectory p X c"
  by (simp add: trajectory_def Let_def)

lemma forecast_case_rates [simp]:
  "forecast_case sim X model dates sf (p\<lparr>reporting_rates := x\<rparr>) c =
   forecast_case sim X model dates sf p c"
  by (simp add: forecast_case_def Let_def)

lemma forecast_loop_rates [simp]:
  "forecast_loop sim X model dates sf (p\<lparr>reporting_rates := x\<rparr>) cs (active, tot, printed) =
   forecast_loop sim X model dates sf p cs (active, tot, printed)"
  by (induction cs arbitrary: active tot printed) (simp_all split: sum.splits)

lemma forecast_rates [simp]:
  "forecast sim X model dates sf (p\<lparr>reporting_rates := x\<rparr>) = forecast sim X model dates sf p"
  by (simp add: forecast_def)

lemma model_and_fit_rates [simp]:
  "model_and_fit sim w X Y sf prev (p\<lparr>reporting_rates := x\<rparr>) = model_and_fit sim w X Y sf prev p"
  by (simp add: model_and_fit_def initial_conditions_def Let_def)

lemma rate_loop_rates [simp]:
  "rate_loop sim base cname mobility cases dates population prev_cases (p\<lparr>reporting_rates := x\<rparr>)
     rs (actives, totals) =
   rate_loop sim base cname mobility cases dates population prev_cases p rs (actives, totals)"
  by (induction rs arbitrary: actives totals) (simp_all add: Let_def split: sum.splits prod.splits)

lemma pipeline_loop:
  "pipeline sim timestamp p df =
     (case load_data p df of
        Inl e \<Rightarrow> ([], Inl e)
      | Inr (mobility, cases, day0, population, prev_cases) \<Rightarrow>
          rate_loop sim (weights_dir_base timestamp p) (county_name p) mobility cases
            (map (\<lambda>d. (day0, d)) [0 ..< nat (int (length mobility) + forecast_days p)])
            population prev_cases p (reporting_rates p) (Map.empty, Map.empty))"
  by (simp add: pipeline_def Let_def split: sum.splits prod.splits)

lemma rate_loop_result_iff:
  "snd (rate_loop sim base cname mobility cases dates population prev_cases p rs
          (actives, totals)) = Inr res \<longleftrightarrow>
     (\<forall>r \<in> set rs. \<exists>x.
        forecast sim mobility (fitted sim base cname mobility cases population prev_cases p r)
          dates (scale_factor_of population r) p = Inr x) \<and>
     res =
       (\<lambda>r. if r \<in> set rs
            then Some (\<lambda>c. if c \<in> set (mobility_cases p)
               then Some (active_series
                  (forward sim (fitted sim base cname mobility cases population prev_cases p r)
                     (trajectory p mobility c)) (scale_factor_of population r))
               else None)
            else actives r,
        \<lambda>r. if r \<in> set rs
            then Some (\<lambda>c. if c \<in> set (mobility_cases p)
               then Some (total_series
                  (forward sim (fitted sim base cname mobility cases population prev_cases p r)
                     (trajectory p mobility c)) (scale_factor_of population r))
               else None)
            else totals r)"
  (is "?L \<longleftrightarrow> ?ok \<and> res = ?val")
proof
  assume ?L
  then obtain calls actives' totals' where
    "rate_loop sim base cname mobility cases dates population prev_cases p rs
          (actives, totals) = (calls, Inr (actives', totals'))" and "res = (actives', totals')"
    by (metis prod.collapse)
  then show "?ok \<and> res = ?val"
    using rate_loop_Inr by fast
next
  assume r: "?ok \<and> res = ?val"
  then obtain calls res' where
    l: "rate_loop sim base cname mobility cases dates population prev_cases p rs
          (actives, totals) = (calls, Inr res')"
    using rate_loop_total by fast
  then have "res' = ?val"
    using rate_loop_Inr [of sim base cname mobility cases dates population prev_cases p rs
        actives totals calls "fst res'" "snd res'"] by (simp add: prod_eq_iff)
  then show ?L
    using l r by simp
qed

lemma weights_dir_base_rates [simp]:
  "weights_dir_base timestamp (p\<lparr>reporting_rates := x\<rparr>) = weights_dir_base timestamp p"
  by (simp add: weights_dir_base_def)

lemma county_name_rates [simp]: "county_name (p\<lparr>reporting_rates := x\<rparr>) = county_name p"
  by (simp add: county_name_def)

lemma fit_calls_fun:
  "fit_calls base cname mobility cases population prev_cases p =
     (\<lambda>r. [BuildModel (WeightsPath base cname r)
             (estimated_r0 p * (real_of_int prev_cases / (real_of_int population * r))
                / real_of_int (incubation_days p))
             (real_of_int prev_cases / (real_of_int population * r)),
           Train (WeightsPath base cname r) mobility
             (map (\<lambda>y. real_of_int y / (real_of_int population * r)) cases)
             (n_epochs p) (lr_step_size p)])"
  by (rule ext) (simp add: fit_calls_def)

lemma pipeline_calls:
  assumes "load_data p df = Inr (mobility, cases, day0, population, prev_cases)"
      and "pipeline sim timestamp p df = (calls, Inr res)"
  shows "calls = concat (map (fit_calls (weights_dir_base timestamp p) (county_name p)
       mobility cases population prev_cases p) (reporting_rates p))"
proof -
  obtain actives totals where "res = (actives, totals)"
    by (cases res) auto
  with assms have
    "rate_loop sim (weights_dir_base timestamp p) (county_name p) mobility cases
       (map (\<lambda>d. (day0, d)) [0 ..< nat (int (length mobility) + forecast_days p)])
       population prev_cases p (reporting_rates p) (Map.empty, Map.empty)
     = (calls, Inr (actives, totals))"
    by (simp add: pipeline_loop)
  then show ?thesis
    using rate_loop_Inr by fast
qed

lemma first_index_less: "v \<in> set xs \<Longrightarrow> first_index v xs < length xs"
  by (induction xs) auto

lemma np_argmax_less: "xs \<noteq> [] \<Longrightarrow> np_argmax xs < length xs"
  unfolding np_argmax_def by (rule first_index_less) (simp add: np_max_eq_Max)

text \<open>
  \<open>forecast\<close> returns whenever the simulated state is non-empty and no longer than the
  date axis.
\<close>

lemma forecast_returns:
  assumes "0 \<le> forecast_days p"
      and "\<forall>c \<in> set (mobility_cases p).
             forward sim model (trajectory p X c) \<noteq> [] \<and>
             length (forward sim model (trajectory p X c)) \<le> length dates"
  shows "\<exists>res. forecast sim X model dates sf p = Inr res"
proof -
  have "\<exists>res. forecast_case sim X model dates sf p c = Inr res"
    if "c \<in> set (mobility_cases p)" for c
  proof -
    let ?a = "active_series (forward sim model (trajectory p X c)) sf"
    have "?a \<noteq> []" and "length ?a \<le> length dates"
      using assms(2) that by (simp_all add: active_series_def)
    then have "np_argmax ?a < length dates"
      using np_argmax_less [of ?a] by simp
    then show ?thesis
      using assms(1) \<open>?a \<noteq> []\<close> by (simp add: forecast_case_Inr_iff)
  qed
  then show ?thesis
    unfolding forecast_def using forecast_loop_total by fast
qed

lemma pipeline_sample_returns:
  "\<not> isl (snd (pipeline sample_sim ts (sample_params\<lparr>reporting_rates := rs\<rparr>) sample_frame))"
proof -
  let ?X = "[[7 / 10, 21 / 20, 6 / 5, 7 / 10, 3 / 5, 0], [3 / 5, 21 / 20, 6 / 5, 7 / 10, 3 / 5, 1 :: real]]"
  define dates where
    "dates = map (\<lambda>d. (''2020-03-04'', d)) [0 ..< nat (int (length ?X) + forecast_days sample_params)]"
  have f: "0 \<le> forecast_days sample_params" and l: "length dates = 4"
    by (simp_all add: dates_def sample_params_def)
  have "\<exists>res. forecast sample_sim ?X m dates sf sample_params = Inr res" for m sf
    using f by (rule forecast_returns) (simp add: sample_state l)
  then have "\<exists>calls res. rate_loop sample_sim base cname ?X cs dates pop prev sample_params rs
      (Map.empty, Map.empty) = (calls, Inr res)" for base cname cs pop prev
    by (intro rate_loop_total) simp
  moreover have "snd (pipeline sample_sim ts (sample_params\<lparr>reporting_rates := rs\<rparr>) sample_frame) =
      snd (rate_loop sample_sim (weights_dir_base ts sample_params) (county_name sample_params)
         ?X [43, 53] dates 1000 33 sample_params rs (Map.empty, Map.empty))"
    by (simp add: pipeline_loop load_data_sample dates_def)
  ultimately show ?thesis
    by (metis snd_conv sum.disc(2))
qed

lemma sample_paths:
  "weights_dir_base ''t'' sample_params = ''t''"
  "county_name sample_params = ''Bexar''"
  by (simp add: weights_dir_base_def sample_params_def) code_simp

lemma sample_fields:
  "estimated_r0 sample_params = 22 / 10" "incubation_days sample_params = 5"
  "n_epochs sample_params = 200" "lr_step_size sample_params = 4000"
  by (simp_all add: sample_params_def)


text \<open>
  C7. Running \<open>pipeline\<close> with the configured reporting rates in any permuted order gives
  the same dictionaries: the permuted run returns \<open>(actives, totals)\<close> exactly when the
  original run does, so the active and total series stored under every rate are the
  same. The fit and forward operations are functions of their arguments here.
\<close>

theorem pipeline_order_independent:
  assumes "mset rs' = mset (reporting_rates p)"
  shows "snd (pipeline sim timestamp (p\<lparr>reporting_rates := rs'\<rparr>) df) = Inr res \<longleftrightarrow>
         snd (pipeline sim timestamp p df) = Inr res"
proof -
  have s: "set rs' = set (reporting_rates p)"
    using assms by (rule mset_eq_setD)
  show ?thesis
  proof (cases "load_data p df")
    case (Inl e)
    then show ?thesis
      by (simp add: pipeline_loop)
  next
    case (Inr v)
    obtain mobility cases day0 population prev_cases where
      "v = (mobility, cases, day0, population, prev_cases)"
      by (metis prod_cases5)
    with Inr show ?thesis
      by (simp add: pipeline_loop rate_loop_result_iff s)
  qed
qed

text \<open>The rates \<open>[0.1, 0.3]\<close> and \<open>[0.3, 0.1]\<close> on the sample frame.\<close>

theorem pipeline_order_independent_witness:
  "mset [3 / 10, 1 / 10 :: real]
     = mset (reporting_rates (sample_params\<lparr>reporting_rates := [1 / 10, 3 / 10]\<rparr>)) \<and>
   \<not> isl (snd (pipeline sample_sim ''t'' (sample_params\<lparr>reporting_rates := [1 / 10, 3 / 10]\<rparr>)
               sample_frame)) \<and>
   snd (pipeline sample_sim ''t''
          (sample_params\<lparr>reporting_rates := [1 / 10, 3 / 10]\<rparr>\<lparr>reporting_rates := [3 / 10, 1 / 10]\<rparr>)
          sample_frame) =
   snd (pipeline sample_sim ''t'' (sample_params\<lparr>reporting_rates := [1 / 10, 3 / 10]\<rparr>)
          sample_frame)"
proof -
  let ?P = "sample_params\<lparr>reporting_rates := [1 / 10, 3 / 10]\<rparr>"
  have m: "mset [3 / 10, 1 / 10 :: real] = mset (reporting_rates ?P)"
    by (simp add: add_mset_commute)
  have ok: "\<not> isl (snd (pipeline sample_sim ''t'' ?P sample_frame))"
    by (rule pipeline_sample_returns)
  then obtain res where r: "snd (pipeline sample_sim ''t'' ?P sample_frame) = Inr res"
    by (cases "snd (pipeline sample_sim ''t'' ?P sample_frame)") auto
  from pipeline_order_independent [OF m, of sample_sim "''t''" sample_frame res] r
  have "snd (pipeline sample_sim ''t'' (?P\<lparr>reporting_rates := [3 / 10, 1 / 10]\<rparr>) sample_frame)
      = Inr res"
    by blast
  with r m ok show ?thesis
    by simp
qed

text \<open>
  C5. When \<open>pipeline\<close> runs through, with non-zero divisors, it has handed to the trainer,
  for every configured reporting rate \<open>r\<close> in turn, the initial conditions
  \<open>i0 = prev_cases / (population * r)\<close> and \<open>e0 = estimated_r0 * i0 / incubation_days\<close> and
  the rescaled series \<open>Y = cases / (population * r)\<close>. A population of 1000000 and a rate
  of 0.1 give the scale factor 100000, and 50 previous cases then give \<open>i0 = 0.0005\<close>.
\<close>

theorem pipeline_scaling:
  assumes "load_data p df = Inr (mobility, cases, day0, population, prev_cases)"
      and "pipeline sim timestamp p df = (calls, Inr res)"
      and "\<forall>r \<in> set (reporting_rates p). scale_factor_of population r \<noteq> 0"
      and "incubation_days p \<noteq> 0"
  shows "calls = concat (map (\<lambda>r.
            [BuildModel (WeightsPath (weights_dir_base timestamp p) (county_name p) r)
               (estimated_r0 p * (real_of_int prev_cases / (real_of_int population * r))
                  / real_of_int (incubation_days p))
               (real_of_int prev_cases / (real_of_int population * r)),
             Train (WeightsPath (weights_dir_base timestamp p) (county_name p) r) mobility
               (map (\<lambda>y. real_of_int y / (real_of_int population * r)) cases)
               (n_epochs p) (lr_step_size p)]) (reporting_rates p)) \<and>
         scale_factor_of 1000000 (1 / 10) = 100000 \<and>
         snd (initial_conditions p 50 (scale_factor_of 1000000 (1 / 10))) = 5 / 10000"
proof -
  have "calls = concat (map (fit_calls (weights_dir_base timestamp p) (county_name p)
       mobility cases population prev_cases p) (reporting_rates p))"
    using assms(1,2) by (rule pipeline_calls)
  then have "calls = concat (map (\<lambda>r.
            [BuildModel (WeightsPath (weights_dir_base timestamp p) (county_name p) r)
               (estimated_r0 p * (real_of_int prev_cases / (real_of_int population * r))
                  / real_of_int (incubation_days p))
               (real_of_int prev_cases / (real_of_int population * r)),
             Train (WeightsPath (weights_dir_base timestamp p) (county_name p) r) mobility
               (map (\<lambda>y. real_of_int y / (real_of_int population * r)) cases)
               (n_epochs p) (lr_step_size p)]) (reporting_rates p))"
    unfolding fit_calls_fun .
  moreover have "scale_factor_of 1000000 (1 / 10) = 100000"
    by (simp add: scale_factor_of_def)
  moreover have "snd (initial_conditions p 50 (scale_factor_of 1000000 (1 / 10))) = 5 / 10000"
    by (simp add: scale_factor_of_def initial_conditions_def Let_def)
  ultimately show ?thesis
    by blast
qed

text \<open>The trainer calls of a run over the rates \<open>[0.1, 0.3]\<close> on the sample frame.\<close>

theorem pipeline_scaling_witness:
  "load_data (sample_params\<lparr>reporting_rates := [1 / 10, 3 / 10]\<rparr>) sample_frame =
     Inr ([[7 / 10, 21 / 20, 6 / 5, 7 / 10, 3 / 5, 0], [3 / 5, 21 / 20, 6 / 5, 7 / 10, 3 / 5, 1]],
          [43, 53], ''2020-03-04'', 1000, 33) \<and>
   scale_factor_of 1000 (1 / 10) \<noteq> 0 \<and> scale_factor_of 1000 (3 / 10) \<noteq> 0 \<and>
   incubation_days (sample_params\<lparr>reporting_rates := [1 / 10, 3 / 10]\<rparr>) \<noteq> 0 \<and>
   fst (pipeline sample_sim ''t'' (sample_params\<lparr>reporting_rates := [1 / 10, 3 / 10]\<rparr>)
          sample_frame) =
     [BuildModel (WeightsPath ''t'' ''Bexar'' (1 / 10)) (363 / 2500) (33 / 100),
      Train (WeightsPath ''t'' ''Bexar'' (1 / 10))
        [[7 / 10, 21 / 20, 6 / 5, 7 / 10, 3 / 5, 0], [3 / 5, 21 / 20, 6 / 5, 7 / 10, 3 / 5, 1]]
        [43 / 100, 53 / 100] 200 4000,
      BuildModel (WeightsPath ''t'' ''Bexar'' (3 / 10)) (121 / 2500) (11 / 100),
      Train (WeightsPath ''t'' ''Bexar'' (3 / 10))
        [[7 / 10, 21 / 20, 6 / 5, 7 / 10, 3 / 5, 0], [3 / 5, 21 / 20, 6 / 5, 7 / 10, 3 / 5, 1]]
        [43 / 300, 53 / 300] 200 4000]"
proof -
  let ?P = "sample_params\<lparr>reporting_rates := [1 / 10, 3 / 10]\<rparr>"
  have ld: "load_data ?P sample_frame =
     Inr ([[7 / 10, 21 / 20, 6 / 5, 7 / 10, 3 / 5, 0], [3 / 5, 21 / 20, 6 / 5, 7 / 10, 3 / 5, 1]],
          [43, 53], ''2020-03-04'', 1000, 33)"
    by (simp add: load_data_sample)
  have ok: "pipeline sample_sim ''t'' ?P sample_frame =
      (fst (pipeline sample_sim ''t'' ?P sample_frame),
       Inr (projr (snd (pipeline sample_sim ''t'' ?P sample_frame))))"
    using pipeline_sample_returns [of "''t''" "[1 / 10, 3 / 10]"] by (simp add: prod_eq_iff)
  have nz: "\<forall>r \<in> set (reporting_rates ?P). scale_factor_of 1000 r \<noteq> 0"
    by (simp add: scale_factor_of_def)
  have inc: "incubation_days ?P \<noteq> 0"
    by (simp add: sample_fields)
  from pipeline_scaling [OF ld ok nz inc] ld nz inc
  show ?thesis
    by (simp add: sample_paths sample_fields)
qed




end
